theory Spec2Isabelle
  imports Main
begin

section \<open>The syntax tree handed over by the parser\<close>

text \<open>
  \<^verbatim>\<open>ast.parse\<close> and \<^verbatim>\<open>ast.unparse\<close> are external to \<^verbatim>\<open>main.py\<close>. The tool only
  looks at three node classes (\<^verbatim>\<open>Compare\<close>, \<^verbatim>\<open>BinOp\<close>, \<^verbatim>\<open>Constant\<close>) and walks through
  every other class with \<^verbatim>\<open>generic_visit\<close>, which visits the child nodes in field order.
  The datatype keeps exactly that: the three classes with the attributes the code
  reads (\<^verbatim>\<open>lineno\<close>, \<^verbatim>\<open>col_offset\<close>, operators, value), and \<open>Other\<close> for any other
  class, with its class name, its non-node field values as text, and its child nodes
  in field order. The operator sorts are those of Python's abstract grammar.
\<close>

datatype cmpop = Eq | NotEq | Lt | LtE | Gt | GtE | Is | IsNot | In | NotIn

datatype operator =
  Add | Sub | Mult | MatMult | Div | Mod | Pow_op | LShift | RShift
  | BitOr | BitXor | BitAnd | FloorDiv

datatype pyconst = CBool bool | CInt int | CStr string | CNone | COther string

datatype node =
    Compare int int node "cmpop list" "node list"
  | BinOp int int node operator node
  | Constant int int pyconst
  | Other string "string list" "node list"

text \<open>\<^verbatim>\<open>type(op).__name__\<close> for the two operator sorts.\<close>

fun cmpop_name :: "cmpop \<Rightarrow> string" where
  "cmpop_name Eq = ''Eq''"
| "cmpop_name NotEq = ''NotEq''"
| "cmpop_name Lt = ''Lt''"
| "cmpop_name LtE = ''LtE''"
| "cmpop_name Gt = ''Gt''"
| "cmpop_name GtE = ''GtE''"
| "cmpop_name Is = ''Is''"
| "cmpop_name IsNot = ''IsNot''"
| "cmpop_name In = ''In''"
| "cmpop_name NotIn = ''NotIn''"

fun operator_name :: "operator \<Rightarrow> string" where
  "operator_name Add = ''Add''"
| "operator_name Sub = ''Sub''"
| "operator_name Mult = ''Mult''"
| "operator_name MatMult = ''MatMult''"
| "operator_name Div = ''Div''"
| "operator_name Mod = ''Mod''"
| "operator_name Pow_op = ''Pow''"
| "operator_name LShift = ''LShift''"
| "operator_name RShift = ''RShift''"
| "operator_name BitOr = ''BitOr''"
| "operator_name BitXor = ''BitXor''"
| "operator_name BitAnd = ''BitAnd''"
| "operator_name FloorDiv = ''FloorDiv''"

section \<open>The mutation tables\<close>

text \<open>
  \<^verbatim>\<open>OP_MUTATION_MAP\<close> is a dict display. Python evaluates its items left to right
  and stores each one, so a key written twice keeps the value written last. The items
  are kept in source order and the dict is built by storing them one after another.
\<close>

definition OP_MUTATION_MAP_items :: "(string \<times> string) list" where
  "OP_MUTATION_MAP_items =
     [(''Eq'', ''NotEq''),
      (''NotEq'', ''Eq''),
      (''Lt'', ''Gt''),
      (''Gt'', ''Lt''),
      (''Add'', ''Sub''),
      (''Sub'', ''Add''),
      (''Add'', ''Mult''),
      (''Mult'', ''Add'')]"

definition dict_display :: "('k \<times> 'v) list \<Rightarrow> ('k \<rightharpoonup> 'v)" where
  "dict_display items = fold (\<lambda>(k, v) m. m(k \<mapsto> v)) items Map.empty"

definition OP_MUTATION_MAP :: "string \<rightharpoonup> string" where
  "OP_MUTATION_MAP = dict_display OP_MUTATION_MAP_items"

definition CONST_BOOL_MUTATIONS :: "bool \<rightharpoonup> bool" where
  "CONST_BOOL_MUTATIONS = dict_display [(True, False), (False, True)]"

section \<open>Mutation sites\<close>

text \<open>
  A site is a dict with the keys \<^verbatim>\<open>kind\<close>, \<^verbatim>\<open>lineno\<close>, \<^verbatim>\<open>col_offset\<close>, \<^verbatim>\<open>orig\<close>,
  \<^verbatim>\<open>target\<close>, and \<^verbatim>\<open>op_index\<close> for \<^verbatim>\<open>Compare\<close> sites only. \<^verbatim>\<open>orig\<close> and \<^verbatim>\<open>target\<close>
  hold a class name (a string) or, for boolean constants, a bool.
\<close>

datatype pyval = PStr string | PBool bool

record site =
  kind :: string
  lineno :: int
  col_offset :: int
  op_index :: "int option"
  orig :: pyval
  target :: pyval

section \<open>MutationSiteCollector\<close>

text \<open>
  The collector's state is its list \<^verbatim>\<open>self.sites\<close>; every visit method takes the list
  and returns it extended. \<open>visit_Compare_ops\<close> is the \<^verbatim>\<open>for idx, op in enumerate(node.ops)\<close>
  loop of \<^verbatim>\<open>visit_Compare\<close>.
\<close>

fun visit_Compare_ops :: "int \<Rightarrow> int \<Rightarrow> (nat \<times> cmpop) list \<Rightarrow> site list \<Rightarrow> site list" where
  "visit_Compare_ops l c [] sites = sites"
| "visit_Compare_ops l c ((idx, op) # rest) sites =
     (let op_name = cmpop_name op in
      case OP_MUTATION_MAP op_name of
        Some tgt \<Rightarrow>
          visit_Compare_ops l c rest
            (sites @ [\<lparr>kind = ''Compare'', lineno = l, col_offset = c,
                       op_index = Some (int idx), orig = PStr op_name, target = PStr tgt\<rparr>])
      | None \<Rightarrow> visit_Compare_ops l c rest sites)"

definition visit_BinOp_site :: "int \<Rightarrow> int \<Rightarrow> operator \<Rightarrow> site list \<Rightarrow> site list" where
  "visit_BinOp_site l c op sites =
     (let op_name = operator_name op in
      case OP_MUTATION_MAP op_name of
        Some tgt \<Rightarrow>
          sites @ [\<lparr>kind = ''BinOp'', lineno = l, col_offset = c,
                     op_index = None, orig = PStr op_name, target = PStr tgt\<rparr>]
      | None \<Rightarrow> sites)"

definition visit_Constant_site :: "int \<Rightarrow> int \<Rightarrow> pyconst \<Rightarrow> site list \<Rightarrow> site list" where
  "visit_Constant_site l c v sites =
     (case v of
        CBool b \<Rightarrow>
          (case CONST_BOOL_MUTATIONS b of
             Some tgt \<Rightarrow>
               sites @ [\<lparr>kind = ''ConstantBool'', lineno = l, col_offset = c,
                          op_index = None, orig = PBool b, target = PBool tgt\<rparr>]
           | None \<Rightarrow> sites)
      | _ \<Rightarrow> sites)"

text \<open>
  \<^verbatim>\<open>visit\<close> dispatches on the class; \<^verbatim>\<open>generic_visit\<close> walks the fields in order
  (\<^verbatim>\<open>left, ops, comparators\<close> for a comparison, \<^verbatim>\<open>left, op, right\<close> for a binary
  operation). Operator nodes are visited too, by \<^verbatim>\<open>generic_visit\<close> with no field to
  walk, which leaves the list as it is.
\<close>

fun visit_collector :: "node \<Rightarrow> site list \<Rightarrow> site list"
  and visit_collector_list :: "node list \<Rightarrow> site list \<Rightarrow> site list" where
  "visit_collector (Compare l c left ops comparators) sites =
     visit_collector_list comparators
       (visit_collector left (visit_Compare_ops l c (enumerate 0 ops) sites))"
| "visit_collector (BinOp l c left op right) sites =
     visit_collector right (visit_collector left (visit_BinOp_site l c op sites))"
| "visit_collector (Constant l c v) sites = visit_Constant_site l c v sites"
| "visit_collector (Other cls attrs children) sites = visit_collector_list children sites"
| "visit_collector_list [] sites = sites"
| "visit_collector_list (n # ns) sites = visit_collector_list ns (visit_collector n sites)"

text \<open>
  The catalog of a tree: a fresh collector (\<^verbatim>\<open>self.sites = []\<close>), one visit of the root,
  then \<^verbatim>\<open>collector.sites\<close>.
\<close>

definition collect_sites :: "node \<Rightarrow> site list" where
  "collect_sites root = visit_collector root []"

section \<open>SingleSiteApplier\<close>

text \<open>
  Exceptions the applier can raise on a site dict: a missing \<^verbatim>\<open>op_index\<close> key, a
  \<^verbatim>\<open>target\<close> that is not a string or names nothing in \<^verbatim>\<open>ast\<close>. \<open>OutsideGrammar\<close>
  stands for the remaining case, where \<^verbatim>\<open>getattr(ast, target)\<close> finds a class of the
  other operator sort: Python would install that object, which no tree of the grammar
  holds, and the model stops there. \<open>ReferenceError\<close> is a read of an address that
  holds no object. The last three are the exceptions of the test run: the two that
  \<^verbatim>\<open>subprocess.run\<close> raises by contract and the \<^verbatim>\<open>OSError\<close> of a failed system call.
\<close>

datatype error =
  KeyError string | AttributeError string | TypeError string | OutsideGrammar string
  | ReferenceError nat
  | TimeoutExpired | CalledProcessError int | OSError string

datatype ast_class = CmpopClass cmpop | OperatorClass operator

definition all_cmpops :: "cmpop list" where
  "all_cmpops = [Eq, NotEq, Lt, LtE, Gt, GtE, Is, IsNot, In, NotIn]"

definition all_operators :: "operator list" where
  "all_operators =
     [Add, Sub, Mult, MatMult, Div, Mod, Pow_op, LShift, RShift, BitOr, BitXor, BitAnd, FloorDiv]"

text \<open>\<^verbatim>\<open>getattr(ast, name)\<close>, for the operator classes.\<close>

definition getattr_ast :: "string \<Rightarrow> ast_class option" where
  "getattr_ast name =
     (case find (\<lambda>c. cmpop_name c = name) all_cmpops of
        Some c \<Rightarrow> Some (CmpopClass c)
      | None \<Rightarrow> map_option OperatorClass (find (\<lambda>op. operator_name op = name) all_operators))"

definition new_cmpop :: "site \<Rightarrow> error + cmpop" where
  "new_cmpop s =
     (case target s of
        PBool b \<Rightarrow> Inl (TypeError ''attribute name must be string'')
      | PStr name \<Rightarrow>
          (case getattr_ast name of
             None \<Rightarrow> Inl (AttributeError name)
           | Some (CmpopClass c) \<Rightarrow> Inr c
           | Some (OperatorClass op) \<Rightarrow> Inl (OutsideGrammar name)))"

definition new_operator :: "site \<Rightarrow> error + operator" where
  "new_operator s =
     (case target s of
        PBool b \<Rightarrow> Inl (TypeError ''attribute name must be string'')
      | PStr name \<Rightarrow>
          (case getattr_ast name of
             None \<Rightarrow> Inl (AttributeError name)
           | Some (OperatorClass op) \<Rightarrow> Inr op
           | Some (CmpopClass c) \<Rightarrow> Inl (OutsideGrammar name)))"

definition matches_location :: "site \<Rightarrow> int \<Rightarrow> int \<Rightarrow> bool" where
  "matches_location s l c \<longleftrightarrow> l = lineno s \<and> c = col_offset s"

text \<open>
  Each visit method either rewrites its own node and returns it, or falls through to
  \<^verbatim>\<open>generic_visit\<close>. The three functions below are the methods up to that choice:
  \<open>Inr (Some x)\<close> is the rewritten operator list or operator (and \<^verbatim>\<open>self.applied = True\<close>),
  \<open>Inr None\<close> is the fall through. \<^verbatim>\<open>ast.fix_missing_locations\<close> changes nothing here:
  operator nodes carry no location attributes.
\<close>

definition apply_Compare ::
  "site \<Rightarrow> bool \<Rightarrow> int \<Rightarrow> int \<Rightarrow> cmpop list \<Rightarrow> error + cmpop list option" where
  "apply_Compare s applied l c ops =
     (if applied \<or> kind s \<noteq> ''Compare'' then Inr None
      else if matches_location s l c then
        (case op_index s of
           None \<Rightarrow> Inl (KeyError ''op_index'')
         | Some idx \<Rightarrow>
             if 0 \<le> idx \<and> idx < int (length ops) then
               (if PStr (cmpop_name (ops ! nat idx)) = orig s then
                  (case new_cmpop s of
                     Inl e \<Rightarrow> Inl e
                   | Inr new_op \<Rightarrow> Inr (Some (ops[nat idx := new_op])))
                else Inr None)
             else Inr None)
      else Inr None)"

definition apply_BinOp ::
  "site \<Rightarrow> bool \<Rightarrow> int \<Rightarrow> int \<Rightarrow> operator \<Rightarrow> error + operator option" where
  "apply_BinOp s applied l c op =
     (if applied \<or> kind s \<noteq> ''BinOp'' then Inr None
      else if matches_location s l c then
        (if PStr (operator_name op) = orig s then
           (case new_operator s of
              Inl e \<Rightarrow> Inl e
            | Inr new_op \<Rightarrow> Inr (Some new_op))
         else Inr None)
      else Inr None)"

text \<open>
  \<^verbatim>\<open>visit_Constant\<close> returns the node itself or a new \<^verbatim>\<open>Constant\<close> at the same location
  (\<^verbatim>\<open>ast.copy_location\<close>) holding \<^verbatim>\<open>site["target"]\<close>. It never assigns \<^verbatim>\<open>self.applied\<close>.
\<close>

definition apply_Constant :: "site \<Rightarrow> bool \<Rightarrow> int \<Rightarrow> int \<Rightarrow> pyconst \<Rightarrow> pyconst" where
  "apply_Constant s applied l c v =
     (if applied \<or> kind s \<noteq> ''ConstantBool'' then v
      else if matches_location s l c then
        (case v of
           CBool b \<Rightarrow>
             if PBool b = orig s then
               (case target s of PBool t \<Rightarrow> CBool t | PStr t \<Rightarrow> CStr t)
             else v
         | _ \<Rightarrow> v)
      else v)"

text \<open>
  The traversal threads \<^verbatim>\<open>self.applied\<close>. \<^verbatim>\<open>NodeTransformer.generic_visit\<close> visits the
  child nodes in field order and stores each result back into its parent.
\<close>

fun visit_applier :: "site \<Rightarrow> node \<Rightarrow> bool \<Rightarrow> error + node \<times> bool"
  and visit_applier_list :: "site \<Rightarrow> node list \<Rightarrow> bool \<Rightarrow> error + node list \<times> bool" where
  "visit_applier s (Compare l c left ops comparators) applied =
     (case apply_Compare s applied l c ops of
        Inl e \<Rightarrow> Inl e
      | Inr (Some ops') \<Rightarrow> Inr (Compare l c left ops' comparators, True)
      | Inr None \<Rightarrow>
          (case visit_applier s left applied of
             Inl e \<Rightarrow> Inl e
           | Inr (left', a1) \<Rightarrow>
               (case visit_applier_list s comparators a1 of
                  Inl e \<Rightarrow> Inl e
                | Inr (comparators', a2) \<Rightarrow> Inr (Compare l c left' ops comparators', a2))))"
| "visit_applier s (BinOp l c left op right) applied =
     (case apply_BinOp s applied l c op of
        Inl e \<Rightarrow> Inl e
      | Inr (Some op') \<Rightarrow> Inr (BinOp l c left op' right, True)
      | Inr None \<Rightarrow>
          (case visit_applier s left applied of
             Inl e \<Rightarrow> Inl e
           | Inr (left', a1) \<Rightarrow>
               (case visit_applier s right a1 of
                  Inl e \<Rightarrow> Inl e
                | Inr (right', a2) \<Rightarrow> Inr (BinOp l c left' op right', a2))))"
| "visit_applier s (Constant l c v) applied =
     Inr (Constant l c (apply_Constant s applied l c v), applied)"
| "visit_applier s (Other cls attrs children) applied =
     (case visit_applier_list s children applied of
        Inl e \<Rightarrow> Inl e
      | Inr (children', a1) \<Rightarrow> Inr (Other cls attrs children', a1))"
| "visit_applier_list s [] applied = Inr ([], applied)"
| "visit_applier_list s (n # ns) applied =
     (case visit_applier s n applied of
        Inl e \<Rightarrow> Inl e
      | Inr (n', a1) \<Rightarrow>
          (case visit_applier_list s ns a1 of
             Inl e \<Rightarrow> Inl e
           | Inr (ns', a2) \<Rightarrow> Inr (n' # ns', a2)))"

section \<open>generate\_mutants\_from\_source\<close>

text \<open>
  The applier rewrites the tree it is given in place, and \<^verbatim>\<open>copy.deepcopy\<close> is what
  keeps the parsed tree apart from it. The store makes both explicit: it is the list of
  the tree objects alive, an address is an index, and each cell holds one tree with
  everything reachable from it (\<^verbatim>\<open>deepcopy\<close> returns a graph that shares no node with
  its argument). A new object is appended.
\<close>

type_synonym pystore = "node list"

definition new_object :: "pystore \<Rightarrow> node \<Rightarrow> pystore \<times> nat" where
  "new_object st t = (st @ [t], length st)"

definition deref :: "pystore \<Rightarrow> nat \<Rightarrow> error + node" where
  "deref st a = (if a < length st then Inr (st ! a) else Inl (ReferenceError a))"

definition deepcopy :: "pystore \<Rightarrow> nat \<Rightarrow> error + pystore \<times> nat" where
  "deepcopy st a =
     (case deref st a of
        Inl e \<Rightarrow> Inl e
      | Inr t \<Rightarrow> Inr (new_object st t))"

text \<open>
  \<^verbatim>\<open>SingleSiteApplier(site).visit(tree)\<close> on the object at address \<open>a\<close>: \<^verbatim>\<open>applied\<close>
  starts \<^verbatim>\<open>False\<close>; every visit method but \<^verbatim>\<open>visit_Constant\<close> returns the node it was
  given, rewritten in place, so the result lives at \<open>a\<close>. A root that is itself a
  \<^verbatim>\<open>Constant\<close> and is replaced comes back as a new object.
\<close>

fun is_Constant :: "node \<Rightarrow> bool" where
  "is_Constant (Constant l c v) = True"
| "is_Constant n = False"

definition applier_visit :: "site \<Rightarrow> pystore \<Rightarrow> nat \<Rightarrow> error + pystore \<times> nat \<times> bool" where
  "applier_visit s st a =
     (case deref st a of
        Inl e \<Rightarrow> Inl e
      | Inr t \<Rightarrow>
          (case visit_applier s t False of
             Inl e \<Rightarrow> Inl e
           | Inr (t', applied) \<Rightarrow>
               if is_Constant t then
                 (if t' = t then Inr (st, a, applied)
                  else (case new_object st t' of (st', a') \<Rightarrow> Inr (st', a', applied)))
               else Inr (st[a := t'], a, applied)))"

text \<open>The description string of a mutant, with Python's \<^verbatim>\<open>str\<close> of an int and of a bool.\<close>

fun str_nat :: "nat \<Rightarrow> string" where
  "str_nat n =
     (if n < 10 then [''0123456789'' ! n]
      else str_nat (n div 10) @ [''0123456789'' ! (n mod 10)])"

declare str_nat.simps [simp del]

definition str_int :: "int \<Rightarrow> string" where
  "str_int i = (if i < 0 then CHR ''-'' # str_nat (nat (- i)) else str_nat (nat i))"

fun str_pyval :: "pyval \<Rightarrow> string" where
  "str_pyval (PStr x) = x"
| "str_pyval (PBool b) = (if b then ''True'' else ''False'')"

definition describe :: "site \<Rightarrow> string" where
  "describe s =
     kind s @ '' @ '' @ str_int (lineno s) @ '':'' @ str_int (col_offset s)
       @ '' ('' @ str_pyval (orig s) @ '' -> '' @ str_pyval (target s) @ '')''"

text \<open>
  The loop over the sites. \<open>root\<close> is the address of the parsed tree; \<open>unparse\<close> is the
  external printer. A site whose applier ends with \<^verbatim>\<open>applied\<close> false is skipped.
\<close>

fun mutants_loop ::
  "(node \<Rightarrow> string) \<Rightarrow> nat \<Rightarrow> site list \<Rightarrow> pystore \<Rightarrow> (string \<times> string) list
     \<Rightarrow> error + pystore \<times> (string \<times> string) list" where
  "mutants_loop unparse root [] st mutants = Inr (st, mutants)"
| "mutants_loop unparse root (s # rest) st mutants =
     (case deepcopy st root of
        Inl e \<Rightarrow> Inl e
      | Inr (st1, tree_copy) \<Rightarrow>
          (case applier_visit s st1 tree_copy of
             Inl e \<Rightarrow> Inl e
           | Inr (st2, mutated_tree, applied) \<Rightarrow>
               if \<not> applied then mutants_loop unparse root rest st2 mutants
               else
                 (case deref st2 mutated_tree of
                    Inl e \<Rightarrow> Inl e
                  | Inr t' \<Rightarrow>
                      mutants_loop unparse root rest st2
                        (mutants @ [(describe s, unparse t')]))))"

text \<open>
  \<open>parsed\<close> is what \<^verbatim>\<open>ast.parse(source_code)\<close> returned; it becomes a new object, the
  root. The collector reads the root and writes nothing to it.
\<close>

definition generate_mutants_from_source ::
  "(node \<Rightarrow> string) \<Rightarrow> node \<Rightarrow> pystore \<Rightarrow> error + pystore \<times> (string \<times> string) list" where
  "generate_mutants_from_source unparse parsed st =
     (case new_object st parsed of
        (st0, root) \<Rightarrow>
          (case deref st0 root of
             Inl e \<Rightarrow> Inl e
           | Inr t \<Rightarrow> mutants_loop unparse root (collect_sites t) st0 []))"

section \<open>The scenarios of the specification, as the parser returns them\<close>

definition Name :: "string \<Rightarrow> string \<Rightarrow> node" where
  "Name ident ctx = Other ''Name'' [ident] [Other ctx [] []]"

text \<open>\<^verbatim>\<open>if a == b: return True\<close>\<close>

definition scenario_A :: node where
  "scenario_A =
     Other ''Module'' []
       [Other ''If'' []
          [Compare 1 3 (Name ''a'' ''Load'') [Eq] [Name ''b'' ''Load''],
           Other ''Return'' [] [Constant 1 18 (CBool True)]]]"

text \<open>\<^verbatim>\<open>if a != b: return True\<close>\<close>

definition scenario_A_mutant :: node where
  "scenario_A_mutant =
     Other ''Module'' []
       [Other ''If'' []
          [Compare 1 3 (Name ''a'' ''Load'') [NotEq] [Name ''b'' ''Load''],
           Other ''Return'' [] [Constant 1 18 (CBool True)]]]"

text \<open>\<^verbatim>\<open>x = a + b\<close>, and the same assignment with another operator.\<close>

definition scenario_B_with :: "operator \<Rightarrow> node" where
  "scenario_B_with op =
     Other ''Module'' []
       [Other ''Assign'' []
          [Name ''x'' ''Store'',
           BinOp 1 4 (Name ''a'' ''Load'') op (Name ''b'' ''Load'')]]"

definition scenario_B :: node where
  "scenario_B = scenario_B_with Add"

text \<open>
  \<^verbatim>\<open>x = a + b + c\<close>: addition associates to the left, and a binary operation starts
  where its left operand starts, so both \<^verbatim>\<open>BinOp\<close> nodes are at line 1, column 4.
\<close>

definition nested_sum_with :: "operator \<Rightarrow> operator \<Rightarrow> node" where
  "nested_sum_with inner outer =
     Other ''Module'' []
       [Other ''Assign'' []
          [Name ''x'' ''Store'',
           BinOp 1 4
             (BinOp 1 4 (Name ''a'' ''Load'') inner (Name ''b'' ''Load''))
             outer (Name ''c'' ''Load'')]]"

definition nested_sum :: node where
  "nested_sum = nested_sum_with Add Add"

section \<open>The test run\<close>

text \<open>
  What \<^verbatim>\<open>subprocess.run(["pytest", "-q"], check=True, timeout=timeout)\<close> can do: the
  process exits with a return code, the timeout elapses first, or the process cannot be
  started at all (\<^verbatim>\<open>FileNotFoundError\<close>, \<^verbatim>\<open>PermissionError\<close>: both are \<^verbatim>\<open>OSError\<close>).
\<close>

datatype run_outcome = Exited int | TimedOut | LaunchFailed string

definition subprocess_run :: "run_outcome \<Rightarrow> error + unit" where
  "subprocess_run outcome =
     (case outcome of
        Exited returncode \<Rightarrow>
          if returncode = 0 then Inr () else Inl (CalledProcessError returncode)
      | TimedOut \<Rightarrow> Inl TimeoutExpired
      | LaunchFailed why \<Rightarrow> Inl (OSError why))"

text \<open>
  \<^verbatim>\<open>run_pytest_in_cwd\<close>: the \<^verbatim>\<open>try\<close> with its two \<^verbatim>\<open>except\<close> clauses. Any other
  exception leaves the function.
\<close>

definition run_pytest_in_cwd :: "run_outcome \<Rightarrow> error + bool" where
  "run_pytest_in_cwd outcome =
     (case subprocess_run outcome of
        Inr u \<Rightarrow> Inr True
      | Inl TimeoutExpired \<Rightarrow> Inr False
      | Inl (CalledProcessError returncode) \<Rightarrow> Inr False
      | Inl e \<Rightarrow> Inl e)"

section \<open>mutate\_file\_and\_test\<close>

text \<open>
  The part of the machine the loop changes: the working directory of the process and
  the temporary directories that exist. What the external calls of one iteration do is
  given by a record: the name \<^verbatim>\<open>mkdtemp\<close> picks, an exception for each call that can
  raise one (\<open>None\<close>: the call succeeds), and the outcome of the test run.
  \<^verbatim>\<open>copy_project_to\<close> catches the exceptions of the single copies itself; its
  \<^verbatim>\<open>os.listdir\<close> is outside that \<^verbatim>\<open>try\<close>. The two calls that undo an iteration can
  raise as well: \<^verbatim>\<open>os.chdir(cwd)\<close> in the \<^verbatim>\<open>finally\<close> clause, and the removal of the
  tree when the \<^verbatim>\<open>with\<close> block is left, which fails with \<^verbatim>\<open>OSError\<close> when, for one,
  a process the test run started outlives it and still writes into the directory
  (\<^verbatim>\<open>subprocess.run\<close> kills on a timeout the process it started, not that process's
  children).
\<close>

record world =
  cwd :: string
  tmpdirs :: "string list"

record faults =
  mkdtemp_name :: string
  mkdtemp_error :: "error option"
  listdir_error :: "error option"
  write_error :: "error option"
  getcwd_error :: "error option"
  chdir_error :: "error option"
  pytest :: run_outcome
  chdir_back_error :: "error option"
  rmtree_error :: "error option"

record verdict =
  mutation :: string
  killed :: bool

definition mkdtemp :: "faults \<Rightarrow> world \<Rightarrow> error + world \<times> string" where
  "mkdtemp f w =
     (case mkdtemp_error f of
        Some e \<Rightarrow> Inl e
      | None \<Rightarrow>
          if mkdtemp_name f \<in> set (tmpdirs w) then Inl (OSError ''FileExistsError'')
          else Inr (w\<lparr>tmpdirs := mkdtemp_name f # tmpdirs w\<rparr>, mkdtemp_name f))"

text \<open>
  Leaving the \<^verbatim>\<open>with\<close> block: \<^verbatim>\<open>TemporaryDirectory.__exit__\<close> removes the tree, after
  a normal end of the body and after an exception alike. When the removal raises, the
  directory stays and that exception leaves the block, in place of whatever the body
  ended with.
\<close>

definition cleanup :: "faults \<Rightarrow> string \<Rightarrow> world \<Rightarrow> error + 'a \<Rightarrow> world \<times> (error + 'a)" where
  "cleanup f tmpdir w r =
     (case rmtree_error f of
        Some e \<Rightarrow> (w, Inl e)
      | None \<Rightarrow> (w\<lparr>tmpdirs := removeAll tmpdir (tmpdirs w)\<rparr>, r))"

text \<open>
  The \<^verbatim>\<open>try: os.chdir(tmpdir); passed = run_pytest_in_cwd(...)\<close> with its
  \<^verbatim>\<open>finally: os.chdir(cwd)\<close>. The \<^verbatim>\<open>finally\<close> clause runs however the \<^verbatim>\<open>try\<close> ended;
  an exception of its own replaces the result.
\<close>

definition chdir_and_run :: "faults \<Rightarrow> string \<Rightarrow> string \<Rightarrow> world \<Rightarrow> world \<times> (error + bool)" where
  "chdir_and_run f tmpdir cwd0 w =
     (case (case chdir_error f of
              Some e \<Rightarrow> (w, Inl e)
            | None \<Rightarrow> (w\<lparr>cwd := tmpdir\<rparr>, run_pytest_in_cwd (pytest f))) of
        (w1, r) \<Rightarrow>
          (case chdir_back_error f of
             Some e \<Rightarrow> (w1, Inl e)
           | None \<Rightarrow> (w1\<lparr>cwd := cwd0\<rparr>, r)))"

text \<open>The body of the \<^verbatim>\<open>with tempfile.TemporaryDirectory() as tmpdir\<close> block.\<close>

definition sandbox_body :: "faults \<Rightarrow> string \<Rightarrow> string \<Rightarrow> world \<Rightarrow> world \<times> (error + verdict)" where
  "sandbox_body f desc tmpdir w =
     (case listdir_error f of
        Some e \<Rightarrow> (w, Inl e)
      | None \<Rightarrow>
          (case write_error f of
             Some e \<Rightarrow> (w, Inl e)
           | None \<Rightarrow>
               (case getcwd_error f of
                  Some e \<Rightarrow> (w, Inl e)
                | None \<Rightarrow>
                    (case chdir_and_run f tmpdir (cwd w) w of
                       (w1, Inl e) \<Rightarrow> (w1, Inl e)
                     | (w1, Inr passed) \<Rightarrow>
                         (w1, Inr \<lparr>mutation = desc, killed = \<not> passed\<rparr>)))))"

text \<open>One iteration of the loop: enter the \<^verbatim>\<open>with\<close> block, run its body, leave it.\<close>

definition evaluate_mutant :: "faults \<Rightarrow> string \<Rightarrow> world \<Rightarrow> world \<times> (error + verdict)" where
  "evaluate_mutant f desc w =
     (case mkdtemp f w of
        Inl e \<Rightarrow> (w, Inl e)
      | Inr (w1, tmpdir) \<Rightarrow>
          (case sandbox_body f desc tmpdir w1 of
             (w2, r) \<Rightarrow> cleanup f tmpdir w2 r))"



section \<open>collect\_python\_files\<close>

text \<open>
  A directory tree as \<^verbatim>\<open>os.walk\<close> sees it: an entry of a directory is a directory, with
  its own entries in listing order, or anything else, which \<^verbatim>\<open>os.walk\<close> reports among
  the file names. Every directory is one \<^verbatim>\<open>os.walk\<close> can list and enter: a directory
  it cannot read, and a symbolic link to a directory, which it names but does not
  enter, have no counterpart here.
\<close>

datatype fsnode = File | Dir "(string \<times> fsnode) list"

text \<open>\<^verbatim>\<open>os.path.join\<close> of two components and \<^verbatim>\<open>str.endswith\<close>.\<close>

definition path_join :: "string \<Rightarrow> string \<Rightarrow> string" where
  "path_join a b =
     (if b \<noteq> [] \<and> hd b = CHR ''/'' then b
      else if a = [] \<or> last a = CHR ''/'' then a @ b
      else a @ ''/'' @ b)"

definition endswith :: "string \<Rightarrow> string \<Rightarrow> bool" where
  "endswith s suf \<longleftrightarrow>
     length suf \<le> length s \<and> drop (length s - length suf) s = suf"

fun is_dir :: "fsnode \<Rightarrow> bool" where
  "is_dir (Dir entries) = True"
| "is_dir File = False"

definition dirnames :: "(string \<times> fsnode) list \<Rightarrow> string list" where
  "dirnames entries = map fst (filter (\<lambda>(name, n). is_dir n) entries)"

definition filenames :: "(string \<times> fsnode) list \<Rightarrow> string list" where
  "filenames entries = map fst (filter (\<lambda>(name, n). \<not> is_dir n) entries)"

text \<open>
  \<^verbatim>\<open>os.walk(top)\<close>, top down: the triple of the directory itself, then the walks of its
  subdirectories in listing order.
\<close>

fun os_walk :: "string \<Rightarrow> (string \<times> fsnode) list \<Rightarrow> (string \<times> string list \<times> string list) list"
  and walk_subdirs :: "string \<Rightarrow> (string \<times> fsnode) list \<Rightarrow> (string \<times> string list \<times> string list) list" where
  "os_walk top_dir entries = (top_dir, dirnames entries, filenames entries) # walk_subdirs top_dir entries"
| "walk_subdirs top_dir [] = []"
| "walk_subdirs top_dir ((name, File) # rest) = walk_subdirs top_dir rest"
| "walk_subdirs top_dir ((name, Dir sub) # rest) =
     os_walk (path_join top_dir name) sub @ walk_subdirs top_dir rest"

text \<open>
  \<open>stat\<close> is what \<^verbatim>\<open>os.path.isfile\<close> and \<^verbatim>\<open>os.path.isdir\<close> find at a path: a file, a
  directory with its tree, or neither.
\<close>

definition collect_python_files :: "(string \<Rightarrow> fsnode option) \<Rightarrow> string \<Rightarrow> string list" where
  "collect_python_files stat path =
     (case stat path of
        Some File \<Rightarrow> [path]
      | Some (Dir entries) \<Rightarrow>
          concat
            (map (\<lambda>(root, ds, fs). map (path_join root) (filter (\<lambda>f. endswith f ''.py'') fs))
               (os_walk path entries))
      | None \<Rightarrow> [])"

section \<open>Notions of the specification\<close>

text \<open>
  The logical opposite of a comparison operator, in the specification's words:
  equals and not-equals, less-than and greater-than; no other operator has one.
\<close>

fun opposite :: "cmpop \<Rightarrow> cmpop option" where
  "opposite Eq = Some NotEq"
| "opposite NotEq = Some Eq"
| "opposite Lt = Some Gt"
| "opposite Gt = Some Lt"
| "opposite op = None"

text \<open>
  The sites the specification asks of one comparison node at line \<open>l\<close>, column \<open>c\<close>:
  one for each operator of the chain that has an opposite, with the operator's position.
\<close>

definition comparison_sites :: "int \<Rightarrow> int \<Rightarrow> (nat \<times> cmpop) list \<Rightarrow> site list" where
  "comparison_sites l c numbered_ops =
     List.map_filter
       (\<lambda>(idx, op).
          map_option
            (\<lambda>op'. \<lparr>kind = ''Compare'', lineno = l, col_offset = c, op_index = Some (int idx),
                     orig = PStr (cmpop_name op), target = PStr (cmpop_name op')\<rparr>)
            (opposite op))
       numbered_ops"

text \<open>
  All nodes of a tree in document order: a node, then the nodes below it, operand by
  operand and child by child. \<open>sites_of_node\<close> is what one node by itself contributes to
  the catalog: for a comparison the sites above, for a binary operation and a constant
  what the tables give, for any other node nothing.
\<close>

fun nodes :: "node \<Rightarrow> node list"
  and nodes_list :: "node list \<Rightarrow> node list" where
  "nodes (Compare l c left ops comparators) =
     Compare l c left ops comparators # nodes left @ nodes_list comparators"
| "nodes (BinOp l c left op right) = BinOp l c left op right # nodes left @ nodes right"
| "nodes (Constant l c v) = [Constant l c v]"
| "nodes (Other cls attrs children) = Other cls attrs children # nodes_list children"
| "nodes_list [] = []"
| "nodes_list (n # ns) = nodes n @ nodes_list ns"

fun sites_of_node :: "node \<Rightarrow> site list" where
  "sites_of_node (Compare l c left ops comparators) = comparison_sites l c (enumerate 0 ops)"
| "sites_of_node (BinOp l c left op right) = visit_BinOp_site l c op []"
| "sites_of_node (Constant l c v) = visit_Constant_site l c v []"
| "sites_of_node (Other cls attrs children) = []"

text \<open>What identifies a site: its kind, its location and its operator index.\<close>

definition site_key :: "site \<Rightarrow> string \<times> int \<times> int \<times> int option" where
  "site_key s = (kind s, lineno s, col_offset s, op_index s)"







text \<open>
  A file under a directory: \<open>file_at entries names\<close> holds when following \<open>names\<close> from
  the directory with these entries leads through directories to a file.
\<close>

fun file_at :: "(string \<times> fsnode) list \<Rightarrow> string list \<Rightarrow> bool" where
  "file_at entries [] = False"
| "file_at entries [name] = ((name, File) \<in> set entries)"
| "file_at entries (name # names) =
     list_ex (\<lambda>(name', n). name' = name \<and> (case n of Dir sub \<Rightarrow> file_at sub names | File \<Rightarrow> False))
       entries"

text \<open>An iteration in which every external call succeeds and the test run ends as given.\<close>

definition no_faults :: "string \<Rightarrow> run_outcome \<Rightarrow> faults" where
  "no_faults name outcome =
     \<lparr>mkdtemp_name = name, mkdtemp_error = None, listdir_error = None, write_error = None,
      getcwd_error = None, chdir_error = None, pytest = outcome,
      chdir_back_error = None, rmtree_error = None\<rparr>"



text \<open>
  \<^verbatim>\<open>x = 1 + (a < b)\<close>: a comparison below a binary operation.
\<close>

definition nested_comparison :: node where
  "nested_comparison =
     Other ''Module'' []
       [Other ''Assign'' []
          [Name ''x'' ''Store'',
           BinOp 1 4 (Constant 1 4 (CInt 1)) Add
             (Compare 1 9 (Name ''a'' ''Load'') [Lt] [Name ''b'' ''Load''])]]"

text \<open>
  The paths \<^verbatim>\<open>collect_python_files\<close> gathers from a list of \<^verbatim>\<open>os.walk\<close> triples, and
  the sets of paths the specification speaks of: the \<^verbatim>\<open>.py\<close> files under a directory,
  and those that lie in one of its subdirectories.
\<close>

definition py_paths :: "(string \<times> string list \<times> string list) list \<Rightarrow> string list" where
  "py_paths triples =
     concat (map (\<lambda>(root, ds, fs). map (path_join root) (filter (\<lambda>f. endswith f ''.py'') fs)) triples)"

definition under :: "string \<Rightarrow> (string \<times> fsnode) list \<Rightarrow> string set" where
  "under top_dir entries =
     {foldl path_join top_dir names | names.
        file_at entries names \<and> endswith (last names) ''.py''}"

definition under_subdirs :: "string \<Rightarrow> (string \<times> fsnode) list \<Rightarrow> string set" where
  "under_subdirs top_dir entries =
     {foldl path_join top_dir (name # names) | name sub names.
        (name, Dir sub) \<in> set entries \<and> file_at sub names \<and> endswith (last names) ''.py''}"

text \<open>A small file system: a project directory, a script beside it, nothing else.\<close>

definition example_stat :: "string \<Rightarrow> fsnode option" where
  "example_stat p =
     (if p = ''proj'' then
        Some (Dir [(''a.py'', File), (''notes.txt'', File),
                   (''pkg'', Dir [(''b.py'', File), (''data'', Dir [])])])
      else if p = ''run.sh'' then Some File
      else None)"





section \<open>Facts about the tables and the collector\<close>

lemma OP_MUTATION_MAP_cmpop:
  "OP_MUTATION_MAP (cmpop_name op) = map_option cmpop_name (opposite op)"
  by (cases op) (simp_all add: OP_MUTATION_MAP_def OP_MUTATION_MAP_items_def dict_display_def)

lemma OP_MUTATION_MAP_operator:
  "OP_MUTATION_MAP (operator_name op) =
     (if op = Add then Some ''Mult'' else if op = Sub then Some ''Add''
      else if op = Mult then Some ''Add'' else None)"
  by (cases op) (simp_all add: OP_MUTATION_MAP_def OP_MUTATION_MAP_items_def dict_display_def)

lemma visit_Compare_ops_sites:
  "visit_Compare_ops l c xs sites = sites @ comparison_sites l c xs"
proof (induction xs arbitrary: sites)
  case Nil
  show ?case by (simp add: comparison_sites_def List.map_filter_simps)
next
  case (Cons x xs)
  obtain idx op where x: "x = (idx, op)" by (cases x)
  show ?case
  proof (cases "opposite op")
    case None
    then show ?thesis
      using Cons.IH [of sites]
      by (simp add: x comparison_sites_def List.map_filter_simps OP_MUTATION_MAP_cmpop)
  next
    case (Some op')
    then show ?thesis
      using Cons.IH [of "sites @ [\<lparr>kind = ''Compare'', lineno = l, col_offset = c,
              op_index = Some (int idx), orig = PStr (cmpop_name op),
              target = PStr (cmpop_name op')\<rparr>]"]
      by (simp add: x comparison_sites_def List.map_filter_simps OP_MUTATION_MAP_cmpop)
  qed
qed

lemma visit_BinOp_site_append:
  "visit_BinOp_site l c op sites = sites @ visit_BinOp_site l c op []"
  by (simp add: visit_BinOp_site_def Let_def split: option.splits)

lemma visit_Constant_site_append:
  "visit_Constant_site l c v sites = sites @ visit_Constant_site l c v []"
  by (simp add: visit_Constant_site_def split: option.splits pyconst.splits)

lemma visit_collector_list_append_aux:
  assumes "\<And>n sites. n \<in> set ns \<Longrightarrow> visit_collector n sites = sites @ visit_collector n []"
  shows "visit_collector_list ns sites = sites @ visit_collector_list ns []"
  using assms
proof (induction ns arbitrary: sites)
  case Nil
  show ?case by simp
next
  case (Cons n ns)
  have n: "visit_collector n sites = sites @ visit_collector n []"
    by (rule Cons.prems) simp
  have rest: "\<And>acc. visit_collector_list ns acc = acc @ visit_collector_list ns []"
    by (rule Cons.IH) (rule Cons.prems, simp)
  show ?case
    using rest [of "visit_collector n sites"] rest [of "visit_collector n []"] n by simp
qed

lemma visit_collector_append:
  "visit_collector t sites = sites @ visit_collector t []"
proof (induction t arbitrary: sites)
  case (Compare l c left ops comparators)
  have comps: "\<And>acc. visit_collector_list comparators acc = acc @ visit_collector_list comparators []"
    using Compare.IH(2) by (rule visit_collector_list_append_aux)
  show ?case
    using Compare.IH(1) [of "sites @ comparison_sites l c (enumerate 0 ops)"]
          Compare.IH(1) [of "comparison_sites l c (enumerate 0 ops)"]
          comps [of "sites @ comparison_sites l c (enumerate 0 ops) @ visit_collector left []"]
          comps [of "comparison_sites l c (enumerate 0 ops) @ visit_collector left []"]
    by (simp add: visit_Compare_ops_sites)
next
  case (BinOp l c left op right)
  show ?case
    using BinOp.IH(1) [of "visit_BinOp_site l c op sites"]
          BinOp.IH(1) [of "visit_BinOp_site l c op []"]
          BinOp.IH(2) [of "visit_collector left (visit_BinOp_site l c op sites)"]
          BinOp.IH(2) [of "visit_collector left (visit_BinOp_site l c op [])"]
          visit_BinOp_site_append [of l c op sites]
    by simp
next
  case (Constant l c v)
  show ?case using visit_Constant_site_append [of l c v sites] by simp
next
  case (Other cls attrs children)
  have "visit_collector_list children sites = sites @ visit_collector_list children []"
    by (rule visit_collector_list_append_aux) (rule Other.IH)
  then show ?case by simp
qed

lemma visit_collector_list_append:
  "visit_collector_list ts sites = sites @ visit_collector_list ts []"
  by (rule visit_collector_list_append_aux) (rule visit_collector_append)

lemma apply_Compare_other_kind:
  "kind s \<noteq> ''Compare'' \<Longrightarrow> apply_Compare s a l c ops = Inr None"
  by (simp add: apply_Compare_def)

lemma apply_BinOp_other_kind:
  "kind s \<noteq> ''BinOp'' \<Longrightarrow> apply_BinOp s a l c op = Inr None"
  by (simp add: apply_BinOp_def)

lemma visit_applier_list_bool_aux:
  assumes "\<And>n a. n \<in> set ns \<Longrightarrow> \<exists>n'. visit_applier s n a = Inr (n', a)"
  shows "\<exists>ns'. visit_applier_list s ns a = Inr (ns', a)"
  using assms
proof (induction ns)
  case Nil
  show ?case by simp
next
  case (Cons n ns)
  obtain n' where n: "visit_applier s n a = Inr (n', a)"
    using Cons.prems [of n a] by auto
  obtain ns' where ns: "visit_applier_list s ns a = Inr (ns', a)"
    using Cons.IH Cons.prems by auto
  show ?case by (simp add: n ns)
qed

lemma visit_applier_bool_flag:
  assumes k: "kind s = ''ConstantBool''"
  shows "\<exists>t'. visit_applier s t a = Inr (t', a)"
proof (induction t arbitrary: a)
  case (Compare l c left ops comparators)
  obtain left' where l: "visit_applier s left a = Inr (left', a)"
    using Compare.IH(1) [of a] by auto
  obtain comps' where c: "visit_applier_list s comparators a = Inr (comps', a)"
    using visit_applier_list_bool_aux [of comparators s a] Compare.IH(2) by auto
  show ?case by (simp add: k apply_Compare_other_kind l c)
next
  case (BinOp l c left op right)
  obtain left' where l: "visit_applier s left a = Inr (left', a)"
    using BinOp.IH(1) [of a] by auto
  obtain right' where r: "visit_applier s right a = Inr (right', a)"
    using BinOp.IH(2) [of a] by auto
  show ?case by (simp add: k apply_BinOp_other_kind l r)
next
  case (Constant l c v)
  show ?case by simp
next
  case (Other cls attrs children)
  obtain ch' where c: "visit_applier_list s children a = Inr (ch', a)"
    using visit_applier_list_bool_aux [of children s a] Other.IH by auto
  show ?case by (simp add: c)
qed

section \<open>The catalog\<close>

text \<open>
  Claim C9. Cataloging is deterministic: what a visit of a tree appends to
  \<^verbatim>\<open>self.sites\<close> is the catalog of that tree, in the same order, whatever the collector
  held before; so two collectors run on the same parsed source end with the same list.
\<close>

theorem collector_deterministic:
  "visit_collector t sites = sites @ collect_sites t"
  unfolding collect_sites_def by (rule visit_collector_append)

lemma visit_collector_list_nodes_aux:
  assumes "\<And>n. n \<in> set ns \<Longrightarrow> visit_collector n [] = concat (map sites_of_node (nodes n))"
  shows "visit_collector_list ns [] = concat (map sites_of_node (nodes_list ns))"
  using assms
proof (induction ns)
  case Nil
  show ?case by simp
next
  case (Cons n ns)
  have "visit_collector_list (n # ns) [] = visit_collector n [] @ visit_collector_list ns []"
    using visit_collector_list_append [of ns "visit_collector n []"] by simp
  then show ?case using Cons by simp
qed

lemma visit_collector_nodes:
  "visit_collector t [] = concat (map sites_of_node (nodes t))"
proof (induction t)
  case (Compare l c left ops comparators)
  have "visit_collector (Compare l c left ops comparators) [] =
          comparison_sites l c (enumerate 0 ops) @ visit_collector left []
            @ visit_collector_list comparators []"
    using visit_collector_append [of left "comparison_sites l c (enumerate 0 ops)"]
          visit_collector_list_append [of comparators
             "comparison_sites l c (enumerate 0 ops) @ visit_collector left []"]
          visit_Compare_ops_sites [of l c "enumerate 0 ops" "[]"]
    by simp
  then show ?case
    using Compare.IH(1) visit_collector_list_nodes_aux [of comparators] Compare.IH(2)
    by simp
next
  case (BinOp l c left op right)
  have "visit_collector (BinOp l c left op right) [] =
          visit_BinOp_site l c op [] @ visit_collector left [] @ visit_collector right []"
    using visit_collector_append [of left "visit_BinOp_site l c op []"]
          visit_collector_append [of right "visit_BinOp_site l c op [] @ visit_collector left []"]
    by simp
  then show ?case using BinOp.IH by simp
next
  case (Constant l c v)
  show ?case by simp
next
  case (Other cls attrs children)
  show ?case using visit_collector_list_nodes_aux [of children] Other.IH by simp
qed

text \<open>
  Claim C5. The catalog of a tree is made of the contributions of all its nodes, in
  document order, so every comparison node, at whatever depth and below whatever
  node, contributes its sites: one \<^verbatim>\<open>Compare\<close> site for each operator of its chain
  that is equals, not-equals, less-than or greater-than, mapped to its opposite and
  carrying its position in the chain. A comparison node reached by the visitor appends
  these sites ahead of those of its operands. For \<^verbatim>\<open>x = 1 + (a < b)\<close> the comparison
  below the addition gives its site. For \<^verbatim>\<open>if a == b: return True\<close> the catalog is one
  comparison site (\<^verbatim>\<open>Eq\<close> to \<^verbatim>\<open>NotEq\<close>) and one boolean site (\<^verbatim>\<open>True\<close> to \<^verbatim>\<open>False\<close>);
  applying the comparison site gives the tree of \<^verbatim>\<open>if a != b: return True\<close>, and that
  tree is the one mutant the generator prints.
\<close>

theorem comparison_catalog:
  "collect_sites t = concat (map sites_of_node (nodes t))
   \<and> sites_of_node (Compare l c left ops comparators) =
       comparison_sites l c (enumerate 0 ops)
   \<and> visit_collector (Compare l c left ops comparators) sites =
       sites @ comparison_sites l c (enumerate 0 ops)
         @ collect_sites left @ visit_collector_list comparators []
   \<and> collect_sites nested_comparison =
       [\<lparr>kind = ''BinOp'', lineno = 1, col_offset = 4, op_index = None,
         orig = PStr ''Add'', target = PStr ''Mult''\<rparr>,
        \<lparr>kind = ''Compare'', lineno = 1, col_offset = 9, op_index = Some 0,
         orig = PStr ''Lt'', target = PStr ''Gt''\<rparr>]
   \<and> collect_sites scenario_A =
       [\<lparr>kind = ''Compare'', lineno = 1, col_offset = 3, op_index = Some 0,
         orig = PStr ''Eq'', target = PStr ''NotEq''\<rparr>,
        \<lparr>kind = ''ConstantBool'', lineno = 1, col_offset = 18, op_index = None,
         orig = PBool True, target = PBool False\<rparr>]
   \<and> visit_applier (hd (collect_sites scenario_A)) scenario_A False
       = Inr (scenario_A_mutant, True)
   \<and> generate_mutants_from_source unparse scenario_A [] =
       Inr ([scenario_A, scenario_A_mutant,
             Other ''Module'' []
               [Other ''If'' []
                  [Compare 1 3 (Name ''a'' ''Load'') [Eq] [Name ''b'' ''Load''],
                   Other ''Return'' [] [Constant 1 18 (CBool False)]]]],
            [(''Compare @ 1:3 (Eq -> NotEq)'', unparse scenario_A_mutant)])"
proof (intro conjI)
  show "collect_sites t = concat (map sites_of_node (nodes t))"
    unfolding collect_sites_def by (rule visit_collector_nodes)
  show "sites_of_node (Compare l c left ops comparators) =
       comparison_sites l c (enumerate 0 ops)"
    by simp
  show "visit_collector (Compare l c left ops comparators) sites =
     sites @ comparison_sites l c (enumerate 0 ops)
       @ collect_sites left @ visit_collector_list comparators []"
    using visit_collector_append [of left "sites @ comparison_sites l c (enumerate 0 ops)"]
          visit_collector_list_append [of comparators
             "sites @ comparison_sites l c (enumerate 0 ops) @ visit_collector left []"]
    by (simp add: visit_Compare_ops_sites collect_sites_def)
  show "collect_sites nested_comparison =
       [\<lparr>kind = ''BinOp'', lineno = 1, col_offset = 4, op_index = None,
         orig = PStr ''Add'', target = PStr ''Mult''\<rparr>,
        \<lparr>kind = ''Compare'', lineno = 1, col_offset = 9, op_index = Some 0,
         orig = PStr ''Lt'', target = PStr ''Gt''\<rparr>]"
    by code_simp
  show "collect_sites scenario_A =
       [\<lparr>kind = ''Compare'', lineno = 1, col_offset = 3, op_index = Some 0,
         orig = PStr ''Eq'', target = PStr ''NotEq''\<rparr>,
        \<lparr>kind = ''ConstantBool'', lineno = 1, col_offset = 18, op_index = None,
         orig = PBool True, target = PBool False\<rparr>]"
    by code_simp
  show "visit_applier (hd (collect_sites scenario_A)) scenario_A False
       = Inr (scenario_A_mutant, True)"
    by code_simp
  show "generate_mutants_from_source unparse scenario_A [] =
       Inr ([scenario_A, scenario_A_mutant,
             Other ''Module'' []
               [Other ''If'' []
                  [Compare 1 3 (Name ''a'' ''Load'') [Eq] [Name ''b'' ''Load''],
                   Other ''Return'' [] [Constant 1 18 (CBool False)]]]],
            [(''Compare @ 1:3 (Eq -> NotEq)'', unparse scenario_A_mutant)])"
    by code_simp
qed

text \<open>
  Claim C1, where the code departs from it. The second \<^verbatim>\<open>"Add"\<close> item of
  \<^verbatim>\<open>OP_MUTATION_MAP\<close> replaces the first, so addition maps to multiplication and
  multiplication gets sites of its own: for \<^verbatim>\<open>x = a + b\<close> the catalog is one
  \<^verbatim>\<open>BinOp\<close> site \<^verbatim>\<open>Add -> Mult\<close>, the mutant is the tree of \<^verbatim>\<open>x = a * b\<close>, and
  \<^verbatim>\<open>x = a * b\<close> has a site \<^verbatim>\<open>Mult -> Add\<close>.
\<close>

theorem binop_add_maps_to_mult:
  "OP_MUTATION_MAP ''Add'' = Some ''Mult''
   \<and> collect_sites scenario_B =
       [\<lparr>kind = ''BinOp'', lineno = 1, col_offset = 4, op_index = None,
         orig = PStr ''Add'', target = PStr ''Mult''\<rparr>]
   \<and> generate_mutants_from_source unparse scenario_B [] =
       Inr ([scenario_B, scenario_B_with Mult],
            [(''BinOp @ 1:4 (Add -> Mult)'', unparse (scenario_B_with Mult))])
   \<and> collect_sites (scenario_B_with Mult) =
       [\<lparr>kind = ''BinOp'', lineno = 1, col_offset = 4, op_index = None,
         orig = PStr ''Mult'', target = PStr ''Add''\<rparr>]"
proof (intro conjI)
  show "OP_MUTATION_MAP ''Add'' = Some ''Mult''"
    using OP_MUTATION_MAP_operator [of Add] by simp
  show "collect_sites scenario_B =
       [\<lparr>kind = ''BinOp'', lineno = 1, col_offset = 4, op_index = None,
         orig = PStr ''Add'', target = PStr ''Mult''\<rparr>]"
    by code_simp
  show "generate_mutants_from_source unparse scenario_B [] =
       Inr ([scenario_B, scenario_B_with Mult],
            [(''BinOp @ 1:4 (Add -> Mult)'', unparse (scenario_B_with Mult))])"
    by code_simp
  show "collect_sites (scenario_B_with Mult) =
       [\<lparr>kind = ''BinOp'', lineno = 1, col_offset = 4, op_index = None,
         orig = PStr ''Mult'', target = PStr ''Add''\<rparr>]"
    by code_simp
qed

text \<open>
  Claim C3, where the code departs from it. In \<^verbatim>\<open>x = a + b + c\<close> the two
  \<^verbatim>\<open>BinOp\<close> nodes start at the same place, so the catalog holds two sites with the
  same kind, line, column and operator index; the applier rewrites the outer node for
  both, and the inner addition is never mutated.
\<close>

theorem nested_binops_share_location:
  "map site_key (collect_sites nested_sum) =
     [(''BinOp'', 1, 4, None), (''BinOp'', 1, 4, None)]
   \<and> \<not> distinct (map site_key (collect_sites nested_sum))
   \<and> map (\<lambda>s. visit_applier s nested_sum False) (collect_sites nested_sum) =
       [Inr (nested_sum_with Add Mult, True), Inr (nested_sum_with Add Mult, True)]"
proof (intro conjI)
  show k: "map site_key (collect_sites nested_sum) =
     [(''BinOp'', 1, 4, None), (''BinOp'', 1, 4, None)]"
    by code_simp
  show "\<not> distinct (map site_key (collect_sites nested_sum))"
    unfolding k by simp
  show "map (\<lambda>s. visit_applier s nested_sum False) (collect_sites nested_sum) =
       [Inr (nested_sum_with Add Mult, True), Inr (nested_sum_with Add Mult, True)]"
    by code_simp
qed

section \<open>The applier\<close>

text \<open>
  Claim C2, where the code departs from it. \<^verbatim>\<open>visit_Constant\<close> never sets
  \<^verbatim>\<open>self.applied\<close>: for any site of kind \<^verbatim>\<open>ConstantBool\<close> the traversal ends with the
  flag still false. For \<^verbatim>\<open>if a == b: return True\<close> the catalog has two sites, the
  applier does replace \<^verbatim>\<open>True\<close> by \<^verbatim>\<open>False\<close> for the second, and the generator
  returns the comparison mutant only.
\<close>

theorem bool_site_never_applied:
  "(\<exists>t'. visit_applier (s\<lparr>kind := ''ConstantBool''\<rparr>) t False = Inr (t', False))
   \<and> length (collect_sites scenario_A) = 2
   \<and> visit_applier (collect_sites scenario_A ! 1) scenario_A False =
       Inr (Other ''Module'' []
              [Other ''If'' []
                 [Compare 1 3 (Name ''a'' ''Load'') [Eq] [Name ''b'' ''Load''],
                  Other ''Return'' [] [Constant 1 18 (CBool False)]]], False)
   \<and> (\<exists>st. generate_mutants_from_source unparse scenario_A [] =
         Inr (st, [(''Compare @ 1:3 (Eq -> NotEq)'', unparse scenario_A_mutant)]))"
proof (intro conjI)
  show "\<exists>t'. visit_applier (s\<lparr>kind := ''ConstantBool''\<rparr>) t False = Inr (t', False)"
    by (rule visit_applier_bool_flag) simp
  show "length (collect_sites scenario_A) = 2"
    by code_simp
  show "visit_applier (collect_sites scenario_A ! 1) scenario_A False =
       Inr (Other ''Module'' []
              [Other ''If'' []
                 [Compare 1 3 (Name ''a'' ''Load'') [Eq] [Name ''b'' ''Load''],
                  Other ''Return'' [] [Constant 1 18 (CBool False)]]], False)"
    by code_simp
  have "generate_mutants_from_source unparse scenario_A [] =
       Inr ([scenario_A, scenario_A_mutant,
             Other ''Module'' []
               [Other ''If'' []
                  [Compare 1 3 (Name ''a'' ''Load'') [Eq] [Name ''b'' ''Load''],
                   Other ''Return'' [] [Constant 1 18 (CBool False)]]]],
            [(''Compare @ 1:3 (Eq -> NotEq)'', unparse scenario_A_mutant)])"
    by code_simp
  then show "\<exists>st. generate_mutants_from_source unparse scenario_A [] =
         Inr (st, [(''Compare @ 1:3 (Eq -> NotEq)'', unparse scenario_A_mutant)])"
    by simp
qed

section \<open>The test oracle\<close>

lemma run_pytest_in_cwd_cases:
  "run_pytest_in_cwd (Exited rc) = Inr (rc = 0)"
  "run_pytest_in_cwd TimedOut = Inr False"
  "run_pytest_in_cwd (LaunchFailed why) = Inl (OSError why)"
  by (simp_all add: run_pytest_in_cwd_def subprocess_run_def)






lemma evaluate_mutant_verdict:
  assumes "evaluate_mutant f desc w = (w', Inr v)"
  shows "\<exists>passed. run_pytest_in_cwd (pytest f) = Inr passed \<and> v = \<lparr>mutation = desc, killed = \<not> passed\<rparr>"
  using assms
  by (auto simp: evaluate_mutant_def sandbox_body_def chdir_and_run_def cleanup_def
           split: sum.splits prod.splits option.splits)

lemma evaluate_no_faults:
  "name \<notin> set (tmpdirs w) \<Longrightarrow>
   evaluate_mutant (no_faults name outcome) desc w =
     (w, case run_pytest_in_cwd outcome of
           Inl e \<Rightarrow> Inl e
         | Inr passed \<Rightarrow> Inr \<lparr>mutation = desc, killed = \<not> passed\<rparr>)"
  by (simp add: evaluate_mutant_def no_faults_def mkdtemp_def sandbox_body_def chdir_and_run_def
       cleanup_def split: sum.splits)



text \<open>
  Claim C6. Whenever an evaluation records a verdict, its \<^verbatim>\<open>killed\<close> flag is true
  exactly when the test run exited with a nonzero code or timed out, and false exactly
  when it exited with code zero; the verdict carries the mutant's description.
\<close>

theorem killed_iff_failed_or_timed_out:
  assumes "evaluate_mutant f desc w = (w', Inr v)"
  shows "(killed v \<longleftrightarrow> (\<exists>rc. pytest f = Exited rc \<and> rc \<noteq> 0) \<or> pytest f = TimedOut)
         \<and> (\<not> killed v \<longleftrightarrow> pytest f = Exited 0)
         \<and> mutation v = desc"
proof -
  obtain passed where p: "run_pytest_in_cwd (pytest f) = Inr passed"
    and v: "v = \<lparr>mutation = desc, killed = \<not> passed\<rparr>"
    using evaluate_mutant_verdict [OF assms] by auto
  show ?thesis
    using p by (cases "pytest f") (auto simp: v run_pytest_in_cwd_cases)
qed

theorem killed_iff_failed_or_timed_out_witness:
  "evaluate_mutant (no_faults ''/tmp/tmpab12'' (Exited 1)) ''d'' \<lparr>cwd = ''/proj'', tmpdirs = []\<rparr>
     = (\<lparr>cwd = ''/proj'', tmpdirs = []\<rparr>, Inr \<lparr>mutation = ''d'', killed = True\<rparr>)
   \<and> killed \<lparr>mutation = ''d'', killed = True\<rparr>
   \<and> pytest (no_faults ''/tmp/tmpab12'' (Exited 1)) = Exited 1"
proof -
  have e: "evaluate_mutant (no_faults ''/tmp/tmpab12'' (Exited 1)) ''d'' \<lparr>cwd = ''/proj'', tmpdirs = []\<rparr>
     = (\<lparr>cwd = ''/proj'', tmpdirs = []\<rparr>, Inr \<lparr>mutation = ''d'', killed = True\<rparr>)"
    by (simp add: evaluate_no_faults run_pytest_in_cwd_cases)
  show ?thesis
    using killed_iff_failed_or_timed_out [OF e] e by (simp add: no_faults_def)
qed



section \<open>Target discovery\<close>

lemma py_paths_simps:
  "py_paths [] = []"
  "py_paths ((root, ds, fs) # rest) =
     map (path_join root) (filter (\<lambda>f. endswith f ''.py'') fs) @ py_paths rest"
  "py_paths (xs @ ys) = py_paths xs @ py_paths ys"
  by (simp_all add: py_paths_def)

lemma set_filenames: "set (filenames entries) = {name. (name, File) \<in> set entries}"
proof -
  have "\<And>n. \<not> is_dir n \<longleftrightarrow> n = File" by (case_tac n) simp_all
  then show ?thesis by (force simp: filenames_def)
qed

lemma file_at_Cons:
  "file_at entries (name # names) \<longleftrightarrow>
     (names = [] \<and> (name, File) \<in> set entries)
     \<or> (\<exists>sub. (name, Dir sub) \<in> set entries \<and> file_at sub names)"
proof (cases names)
  case Nil
  then show ?thesis by auto
next
  case (Cons n ns)
  have "file_at entries (name # n # ns) \<longleftrightarrow>
          (\<exists>sub. (name, Dir sub) \<in> set entries \<and> file_at sub (n # ns))"
  proof
    assume "file_at entries (name # n # ns)"
    then obtain a b where ab: "(a, b) \<in> set entries" and a: "a = name"
      and b: "case b of Dir sub \<Rightarrow> file_at sub (n # ns) | File \<Rightarrow> False"
      by (auto simp: list_ex_iff)
    from b obtain sub where "b = Dir sub" "file_at sub (n # ns)"
      by (cases b) simp_all
    then show "\<exists>sub. (name, Dir sub) \<in> set entries \<and> file_at sub (n # ns)"
      using ab a by blast
  next
    assume "\<exists>sub. (name, Dir sub) \<in> set entries \<and> file_at sub (n # ns)"
    then obtain sub where "(name, Dir sub) \<in> set entries" "file_at sub (n # ns)" by blast
    then show "file_at entries (name # n # ns)"
      by (force simp: list_ex_iff)
  qed
  then show ?thesis using Cons by simp
qed

lemma file_at_nonempty: "file_at entries names \<Longrightarrow> names \<noteq> []"
  by (cases names) simp_all

lemma under_split:
  "under top_dir entries =
     path_join top_dir ` {f. (f, File) \<in> set entries \<and> endswith f ''.py''}
       \<union> under_subdirs top_dir entries"
proof (intro set_eqI iffI)
  fix p assume "p \<in> under top_dir entries"
  then obtain names where p: "p = foldl path_join top_dir names"
    and f: "file_at entries names" and e: "endswith (last names) ''.py''"
    by (auto simp: under_def)
  obtain name rest where n: "names = name # rest"
    using file_at_nonempty [OF f] by (cases names) auto
  from f n consider "rest = []" "(name, File) \<in> set entries"
    | sub where "(name, Dir sub) \<in> set entries" "file_at sub rest"
    using file_at_Cons [of entries name rest] by auto
  then show "p \<in> path_join top_dir ` {f. (f, File) \<in> set entries \<and> endswith f ''.py''}
       \<union> under_subdirs top_dir entries"
  proof cases
    case 1
    then show ?thesis using p e n by auto
  next
    case 2
    have "rest \<noteq> []" using file_at_nonempty [OF 2(2)] .
    then have "endswith (last rest) ''.py''" using e n by simp
    then have "p \<in> under_subdirs top_dir entries"
      unfolding under_subdirs_def using 2 p n by blast
    then show ?thesis by simp
  qed
next
  fix p assume "p \<in> path_join top_dir ` {f. (f, File) \<in> set entries \<and> endswith f ''.py''}
       \<union> under_subdirs top_dir entries"
  then consider f where "p = path_join top_dir f" "(f, File) \<in> set entries" "endswith f ''.py''"
    | "p \<in> under_subdirs top_dir entries" by auto
  then show "p \<in> under top_dir entries"
  proof cases
    case 1
    have "file_at entries [f]" using 1(2) by simp
    moreover have "p = foldl path_join top_dir [f]" using 1(1) by simp
    moreover have "endswith (last [f]) ''.py''" using 1(3) by simp
    ultimately show ?thesis unfolding under_def by blast
  next
    case 2
    then obtain name sub names where p: "p = foldl path_join top_dir (name # names)"
      and d: "(name, Dir sub) \<in> set entries" and f: "file_at sub names"
      and e: "endswith (last names) ''.py''"
      by (auto simp: under_subdirs_def)
    have ne: "names \<noteq> []" using file_at_nonempty [OF f] .
    have "file_at entries (name # names)" using file_at_Cons [of entries name names] d f by blast
    moreover have "endswith (last (name # names)) ''.py''" using e ne by simp
    ultimately show ?thesis unfolding under_def using p by blast
  qed
qed

lemma under_subdirs_Nil: "under_subdirs top_dir [] = {}"
  by (simp add: under_subdirs_def)

lemma under_subdirs_File:
  "under_subdirs top_dir ((name, File) # rest) = under_subdirs top_dir rest"
  by (auto simp: under_subdirs_def)

lemma under_subdirs_Dir:
  "under_subdirs top_dir ((name, Dir sub) # rest) =
     under (path_join top_dir name) sub \<union> under_subdirs top_dir rest"
proof (intro set_eqI iffI)
  fix p assume "p \<in> under_subdirs top_dir ((name, Dir sub) # rest)"
  then obtain name' sub' names where p: "p = foldl path_join top_dir (name' # names)"
    and d: "(name', Dir sub') \<in> set ((name, Dir sub) # rest)" and f: "file_at sub' names"
    and e: "endswith (last names) ''.py''"
    by (auto simp: under_subdirs_def)
  from d consider "name' = name" "sub' = sub" | "(name', Dir sub') \<in> set rest" by auto
  then show "p \<in> under (path_join top_dir name) sub \<union> under_subdirs top_dir rest"
  proof cases
    case 1
    have "p = foldl path_join (path_join top_dir name) names" using p 1 by simp
    then have "p \<in> under (path_join top_dir name) sub"
      unfolding under_def using f e 1 by blast
    then show ?thesis by simp
  next
    case 2
    have "p \<in> under_subdirs top_dir rest"
      unfolding under_subdirs_def using 2 p f e by blast
    then show ?thesis by simp
  qed
next
  fix p assume "p \<in> under (path_join top_dir name) sub \<union> under_subdirs top_dir rest"
  then consider "p \<in> under (path_join top_dir name) sub" | "p \<in> under_subdirs top_dir rest"
    by auto
  then show "p \<in> under_subdirs top_dir ((name, Dir sub) # rest)"
  proof cases
    case 1
    then obtain names where p: "p = foldl path_join (path_join top_dir name) names"
      and f: "file_at sub names" and e: "endswith (last names) ''.py''"
      by (auto simp: under_def)
    have "p = foldl path_join top_dir (name # names)" using p by simp
    moreover have "(name, Dir sub) \<in> set ((name, Dir sub) # rest)" by simp
    ultimately show ?thesis unfolding under_subdirs_def using f e by blast
  next
    case 2
    then obtain name' sub' names where p: "p = foldl path_join top_dir (name' # names)"
      and d: "(name', Dir sub') \<in> set rest" and f: "file_at sub' names"
      and e: "endswith (last names) ''.py''"
      by (auto simp: under_subdirs_def)
    have "(name', Dir sub') \<in> set ((name, Dir sub) # rest)" using d by simp
    then show ?thesis unfolding under_subdirs_def using p f e by blast
  qed
qed

lemma set_py_paths_walk:
  "set (py_paths (os_walk top_dir entries)) = under top_dir entries"
  "set (py_paths (walk_subdirs top_dir entries)) = under_subdirs top_dir entries"
proof (induction top_dir entries and top_dir entries rule: os_walk_walk_subdirs.induct)
  case (1 top_dir entries)
  have "set (py_paths (os_walk top_dir entries)) =
          path_join top_dir ` {f. (f, File) \<in> set entries \<and> endswith f ''.py''}
            \<union> set (py_paths (walk_subdirs top_dir entries))"
    by (auto simp: py_paths_simps set_filenames)
  then show ?case using "1.IH" by (simp add: under_split)
next
  case (2 top_dir)
  show ?case by (simp add: py_paths_simps under_subdirs_Nil)
next
  case (3 top_dir name rest)
  then show ?case by (simp add: under_subdirs_File)
next
  case (4 top_dir name sub rest)
  have a: "set (py_paths (walk_subdirs top_dir ((name, Dir sub) # rest))) =
             set (py_paths (os_walk (path_join top_dir name) sub))
               \<union> set (py_paths (walk_subdirs top_dir rest))"
    by (simp only: walk_subdirs.simps py_paths_simps set_append)
  show ?case unfolding a "4.IH" under_subdirs_Dir ..
qed

text \<open>
  Claim C10. For a path that is a file, \<^verbatim>\<open>collect_python_files\<close> returns that path
  alone, whatever its name; for a path that is a directory, the paths it returns are
  exactly those of the files under the directory, at any depth, whose names end in
  \<^verbatim>\<open>.py\<close>, each path built with \<^verbatim>\<open>os.path.join\<close> from the directory's path;
  for a path that is neither, it returns the empty list.
\<close>

theorem collect_python_files_cases:
  "(stat path = Some File \<longrightarrow> collect_python_files stat path = [path])
   \<and> (stat path = Some (Dir entries) \<longrightarrow>
        set (collect_python_files stat path) =
          {foldl path_join path names | names.
             file_at entries names \<and> endswith (last names) ''.py''})
   \<and> (stat path = None \<longrightarrow> collect_python_files stat path = [])"
proof (intro conjI impI)
  assume "stat path = Some File"
  then show "collect_python_files stat path = [path]"
    by (simp add: collect_python_files_def)
next
  assume d: "stat path = Some (Dir entries)"
  have "collect_python_files stat path = py_paths (os_walk path entries)"
    using d by (simp add: collect_python_files_def py_paths_def)
  then show "set (collect_python_files stat path) =
          {foldl path_join path names | names.
             file_at entries names \<and> endswith (last names) ''.py''}"
    using set_py_paths_walk(1) [of path entries] by (simp add: under_def)
next
  assume "stat path = None"
  then show "collect_python_files stat path = []"
    by (simp add: collect_python_files_def)
qed

theorem collect_python_files_cases_witness:
  "example_stat ''run.sh'' = Some File
   \<and> collect_python_files example_stat ''run.sh'' = [''run.sh'']
   \<and> example_stat ''proj'' =
        Some (Dir [(''a.py'', File), (''notes.txt'', File),
                   (''pkg'', Dir [(''b.py'', File), (''data'', Dir [])])])
   \<and> collect_python_files example_stat ''proj'' = [''proj/a.py'', ''proj/pkg/b.py'']
   \<and> set [''proj/a.py'', ''proj/pkg/b.py''] =
        {foldl path_join ''proj'' names | names.
           file_at [(''a.py'', File), (''notes.txt'', File),
                    (''pkg'', Dir [(''b.py'', File), (''data'', Dir [])])] names
           \<and> endswith (last names) ''.py''}
   \<and> example_stat ''missing'' = None
   \<and> collect_python_files example_stat ''missing'' = []"
proof -
  have f: "example_stat ''run.sh'' = Some File" by (simp add: example_stat_def)
  have d: "example_stat ''proj'' =
        Some (Dir [(''a.py'', File), (''notes.txt'', File),
                   (''pkg'', Dir [(''b.py'', File), (''data'', Dir [])])])"
    by (simp add: example_stat_def)
  have n: "example_stat ''missing'' = None" by (simp add: example_stat_def)
  have c: "collect_python_files example_stat ''proj'' = [''proj/a.py'', ''proj/pkg/b.py'']"
    by code_simp
  note t = collect_python_files_cases [of example_stat]
  have 1: "collect_python_files example_stat ''run.sh'' = [''run.sh'']"
    using t [of "''run.sh''"] f by simp
  have 2: "set (collect_python_files example_stat ''proj'') =
        {foldl path_join ''proj'' names | names.
           file_at [(''a.py'', File), (''notes.txt'', File),
                    (''pkg'', Dir [(''b.py'', File), (''data'', Dir [])])] names
           \<and> endswith (last names) ''.py''}"
    using t [of "''proj''" "[(''a.py'', File), (''notes.txt'', File),
                    (''pkg'', Dir [(''b.py'', File), (''data'', Dir [])])]"] d by blast
  have 3: "collect_python_files example_stat ''missing'' = []"
    using t [of "''missing''"] n by simp
  show ?thesis using f d n 1 2 3 c by simp
qed

section \<open>One mutation, on a copy\<close>



































end
